theory Spec2Isabelle
  imports Main "HOL-Library.AList"
begin

section \<open>Values, mappings and the object store\<close>

text \<open>
  The Python values that flow through the forms: \<open>None\<close>, booleans, strings and lists.
  On these constructors Python's \<open>==\<close> is structural equality, so \<open>==\<close> and \<open>!=\<close> are
  modelled by HOL's \<open>=\<close> and \<open>\<noteq>\<close>.
\<close>

datatype pyval = PNone | PBool bool | PStr string | PList "pyval list"

text \<open>Python truthiness, as used by \<open>or\<close> and \<open>if\<close>.\<close>

fun truthy :: "pyval \<Rightarrow> bool" where
  "truthy PNone = False"
| "truthy (PBool b) = b"
| "truthy (PStr s) = (s \<noteq> [])"
| "truthy (PList xs) = (xs \<noteq> [])"

text \<open>\<open>a or b\<close> evaluates to \<open>a\<close> when \<open>a\<close> is truthy and to \<open>b\<close> otherwise.\<close>

definition py_or :: "pyval \<Rightarrow> pyval \<Rightarrow> pyval" where
  "py_or a b = (if truthy a then a else b)"

text \<open>
  A mapping is an association list in insertion order (the order \<open>items()\<close> iterates
  in). A dict has distinct keys; the parameter mappings of a request (\<open>request.POST\<close>,
  \<open>request.params\<close>) are multi-valued and hold a key once for every occurrence of the
  field in the submission.
\<close>

type_synonym dict = "(string \<times> pyval) list"

definition dict_contains :: "dict \<Rightarrow> string \<Rightarrow> bool" where
  "dict_contains d k = (map_of d k \<noteq> None)"

definition dict_get :: "dict \<Rightarrow> string \<Rightarrow> pyval \<Rightarrow> pyval" where
  "dict_get d k dflt = (case map_of d k of None \<Rightarrow> dflt | Some v \<Rightarrow> v)"

definition startswith :: "string \<Rightarrow> string \<Rightarrow> bool" where
  "startswith s p = (take (length p) s = p)"

text \<open>
  The exception raised by the schema engine. Only the truthiness of its \<open>error_dict\<close>
  attribute is inspected by the code (\<open>if e.error_dict:\<close>): it is \<open>None\<close> or a mapping
  from field names to nested failures.
\<close>

datatype invalid = Invalid (msg: string) (error_dict: "(string \<times> invalid) list option")

definition error_dict_truthy :: "invalid \<Rightarrow> bool" where
  "error_dict_truthy e = (case error_dict e of None \<Rightarrow> False | Some d \<Rightarrow> d \<noteq> [])"

datatype bad_request_detail =
    Missing_CSRF_token
  | Bad_CSRF_token pyval pyval

datatype assertion_detail =
    Expected_request_method "string option" string
  | Form_invalid_with_errors dict

datatype error =
    FormNotValidated string
  | FormInvalid string
  | HTTPBadRequest bad_request_detail
  | AssertionError assertion_detail
  | InvalidExc invalid
  | KeyError string
  | AttributeError string
  | TypeError
  | OtherError string

definition FormNotValidated_message :: string where
  "FormNotValidated_message = ''Form has not been validated; call validate() first''"

definition csrf_field :: string where
  "csrf_field = ''_authentication_token''"

text \<open>
  Parameter mappings are mutable objects shared by reference (\<open>request.POST\<close>,
  \<open>params.copy()\<close>, \<open>self._data = params\<close>), so they live in a store: an address is an
  index into the list of allocated mappings, and allocation appends.
\<close>

type_synonym addr = nat

record request =
  request_method :: string
  POST :: addr
  params :: addr
  session_csrf_token :: pyval
  url :: string
  path :: string
  remote_addr :: "string option"
  user_agent :: "string option"

text \<open>
  The calls made to the collaborators (session, schema engine, logger) are recorded in
  a trace, so that "without invoking" is a statement about the trace.
\<close>

datatype event =
    Session_get_csrf_token
  | Schema_to_python dict request
  | Log_error string "string option" "string option" dict dict

record ctx =
  heap :: "dict list"
  trace :: "event list"

text \<open>
  The schema engine is external: \<open>to_python\<close> returns the normalised mapping or raises,
  and \<open>unpack_errors\<close> (a method of the raised failure) returns the flattened error
  mapping or raises. Both are parameters of the model.
\<close>

record schema_engine =
  to_python :: "dict \<Rightarrow> request \<Rightarrow> error + dict"
  unpack_errors :: "invalid \<Rightarrow> bool \<Rightarrow> string \<Rightarrow> string \<Rightarrow> error + dict"

section \<open>Form\<close>

text \<open>
  \<open>data_attr\<close> is the attribute \<open>_data\<close>; it is absent (\<open>None\<close>) until \<open>validate\<close> assigns
  it. \<open>form_method\<close> is the attribute \<open>method\<close>; it is \<open>None\<close> when the form accepts
  any request method.
\<close>

record form =
  request :: request
  schema :: schema_engine
  form_method :: "string option"
  dict_char :: string
  list_char :: string
  multipart :: bool
  is_validated :: bool
  errors :: dict
  state :: request
  data_attr :: "addr option"

definition Form_init :: "request \<Rightarrow> schema_engine \<Rightarrow> string option \<Rightarrow> form" where
  "Form_init req sch m =
     \<lparr>request = req, schema = sch, form_method = m, dict_char = ''.'', list_char = ''-'',
      multipart = True, is_validated = False, errors = [], state = req,
      data_attr = None\<rparr>"

text \<open>The property \<open>data\<close>.\<close>

definition data :: "form \<Rightarrow> error + addr" where
  "data f =
     (if is_validated f then
        (case data_attr f of
           None \<Rightarrow> Inl (AttributeError ''_data'')
         | Some a \<Rightarrow> Inr a)
      else Inl (FormNotValidated FormNotValidated_message))"

text \<open>The property \<open>method_allowed\<close>; \<open>if self.method:\<close> is false for \<open>None\<close> and for \<open>''\<close>.\<close>

definition method_allowed :: "form \<Rightarrow> bool" where
  "method_allowed f =
     (case form_method f of
        None \<Rightarrow> True
      | Some m \<Rightarrow> if m \<noteq> [] then request_method (request f) = m else True)"

definition get_params :: "form \<Rightarrow> addr" where
  "get_params f =
     (if form_method f = Some ''POST'' then POST (request f) else params (request f))"

definition get_csrf_token :: "request \<Rightarrow> ctx \<Rightarrow> pyval \<times> ctx" where
  "get_csrf_token req c =
     (session_csrf_token req, c\<lparr>trace := trace c @ [Session_get_csrf_token]\<rparr>)"

definition validate_csrf :: "form \<Rightarrow> addr option \<Rightarrow> ctx \<Rightarrow> (error + unit) \<times> ctx" where
  "validate_csrf f params_arg c =
     (let p = (case params_arg of None \<Rightarrow> get_params f | Some a \<Rightarrow> a) in
      if \<not> dict_contains (heap c ! p) csrf_field then
        (Inl (HTTPBadRequest Missing_CSRF_token), c)
      else
        (let got_token = dict_get (heap c ! p) csrf_field PNone;
             (wanted_token, c') = get_csrf_token (request f) c
         in if got_token \<noteq> wanted_token then
              (Inl (HTTPBadRequest (Bad_CSRF_token wanted_token got_token)), c')
            else (Inr (), c')))"

text \<open>
  \<open>params.copy()\<close> allocates a new mapping; \<open>params.pop(key)\<close> mutates in place: it
  removes one entry for the key, the first, and returns its value. On a dict that is the
  only entry; on a multi-valued mapping later entries for the key stay.
\<close>

fun delete_first :: "string \<Rightarrow> dict \<Rightarrow> dict" where
  "delete_first k [] = []"
| "delete_first k ((k', v) # d) = (if k' = k then d else (k', v) # delete_first k d)"

definition dict_copy :: "addr \<Rightarrow> ctx \<Rightarrow> addr \<times> ctx" where
  "dict_copy a c = (length (heap c), c\<lparr>heap := heap c @ [heap c ! a]\<rparr>)"

definition dict_pop :: "addr \<Rightarrow> string \<Rightarrow> ctx \<Rightarrow> (error + pyval) \<times> ctx" where
  "dict_pop a k c =
     (case map_of (heap c ! a) k of
        None \<Rightarrow> (Inl (KeyError k), c)
      | Some v \<Rightarrow> (Inr v, c\<lparr>heap := (heap c)[a := delete_first k (heap c ! a)]\<rparr>))"

definition new_dict :: "dict \<Rightarrow> ctx \<Rightarrow> addr \<times> ctx" where
  "new_dict d c = (length (heap c), c\<lparr>heap := heap c @ [d]\<rparr>)"

text \<open>The end of \<open>validate\<close>: set \<open>is_validated\<close>, compute \<open>valid\<close>, assert it if asked to.\<close>

definition finish_validate :: "bool \<Rightarrow> form \<Rightarrow> ctx \<Rightarrow> (error + bool) \<times> form \<times> ctx" where
  "finish_validate assert_valid f c =
     (let f' = f\<lparr>is_validated := True\<rparr>;
          valid = (errors f' = [])
      in if assert_valid \<and> \<not> valid then
           (Inl (AssertionError (Form_invalid_with_errors (errors f'))), f', c)
         else (Inr valid, f', c))"

text \<open>
  From \<open>self._data = params\<close> to the end of the \<open>try\<close> statement, followed by the end
  of \<open>validate\<close>. An exception other than \<open>Invalid\<close> is not caught.
\<close>

definition run_schema :: "bool \<Rightarrow> addr \<Rightarrow> form \<Rightarrow> ctx \<Rightarrow> (error + bool) \<times> form \<times> ctx" where
  "run_schema assert_valid p f c =
     (let f1 = f\<lparr>data_attr := Some p\<rparr>;
          c1 = c\<lparr>trace := trace c @ [Schema_to_python (heap c ! p) (state f)]\<rparr>
      in case to_python (schema f) (heap c ! p) (state f) of
           Inr d \<Rightarrow>
             (let (a, c2) = new_dict d c1
              in finish_validate assert_valid (f1\<lparr>data_attr := Some a\<rparr>) c2)
         | Inl x \<Rightarrow>
             (case x of
                InvalidExc e \<Rightarrow>
                  if error_dict_truthy e then
                    (case unpack_errors (schema f) e True (dict_char f) (list_char f) of
                       Inl y \<Rightarrow> (Inl y, f1, c1)
                     | Inr errs \<Rightarrow>
                         (let f2 = f1\<lparr>errors := errs\<rparr>;
                              c2 = c1\<lparr>trace := trace c1 @
                                     [Log_error (url (request f)) (remote_addr (request f))
                                        (user_agent (request f)) (heap c1 ! p) errs]\<rparr>
                          in finish_validate assert_valid f2 c2))
                  else (Inl (InvalidExc e), f1, c1)
              | _ \<Rightarrow> (Inl x, f1, c1)))"

definition validate :: "bool \<Rightarrow> bool \<Rightarrow> form \<Rightarrow> ctx \<Rightarrow> (error + bool) \<times> form \<times> ctx" where
  "validate skip_csrf assert_valid f c =
     (if is_validated f then (Inr (errors f = []), f, c)
      else if assert_valid \<and> \<not> method_allowed f then
        (Inl (AssertionError
               (Expected_request_method (form_method f) (request_method (request f)))), f, c)
      else if \<not> assert_valid \<and> \<not> method_allowed f then (Inr False, f, c)
      else
        (let p = get_params f in
         if \<not> skip_csrf then
           (case validate_csrf f (Some p) c of
              (Inl e, c1) \<Rightarrow> (Inl e, f, c1)
            | (Inr u, c1) \<Rightarrow>
                (let (p', c2) = dict_copy p c1 in
                 case dict_pop p' csrf_field c2 of
                   (Inl e, c3) \<Rightarrow> (Inl e, f, c3)
                 | (Inr v, c3) \<Rightarrow> run_schema assert_valid p' f c3))
         else run_schema assert_valid p f c))"

text \<open>
  \<open>bind\<close>: the target object is its attribute dictionary, and \<open>setattr\<close> stores one
  attribute.
\<close>

definition setattr :: "dict \<Rightarrow> string \<Rightarrow> pyval \<Rightarrow> dict" where
  "setattr obj k v = AList.update k v obj"

fun bind_items :: "(string \<times> pyval) list \<Rightarrow> dict \<Rightarrow> dict" where
  "bind_items [] obj = obj"
| "bind_items ((k, v) # items) obj = bind_items items (setattr obj k v)"

definition bind :: "form \<Rightarrow> ctx \<Rightarrow> dict \<Rightarrow> error + dict" where
  "bind f c obj =
     (if \<not> is_validated f then Inl (FormNotValidated FormNotValidated_message)
      else if errors f \<noteq> [] then Inl (FormInvalid ''Form not valid; cannot bind'')
      else
        (case data f of
           Inl e \<Rightarrow> Inl e
         | Inr a \<Rightarrow>
             (let items = filter (\<lambda>(k, v). \<not> startswith k ''_'') (heap c ! a)
              in Inr (bind_items items obj))))"

definition errors_for :: "form \<Rightarrow> string \<Rightarrow> pyval" where
  "errors_for f field =
     (let errs = dict_get (errors f) field (PList [])
      in case errs of PStr s \<Rightarrow> PList [errs] | _ \<Rightarrow> errs)"

definition is_error :: "form \<Rightarrow> string \<Rightarrow> bool" where
  "is_error f field = dict_contains (errors f) field"

section \<open>Renderer and FormRenderer\<close>

text \<open>
  The attributes \<open>form\<close> and \<open>csrf_field\<close> are assigned by \<open>FormRenderer.__init__\<close> only;
  on a plain \<open>Renderer\<close> they are absent (\<open>None\<close>), and reading an absent attribute
  raises \<open>AttributeError\<close>. \<open>r_data\<close> is a reference to the data mapping.
\<close>

record renderer =
  r_data :: addr
  r_errors :: dict
  r_id_prefix :: "string option"
  r_form :: "form option"
  r_csrf_field :: "string option"

definition Renderer_init :: "addr \<Rightarrow> dict \<Rightarrow> string option \<Rightarrow> renderer" where
  "Renderer_init d errs id_prefix =
     \<lparr>r_data = d, r_errors = errs, r_id_prefix = id_prefix, r_form = None,
      r_csrf_field = None\<rparr>"

definition FormRenderer_init :: "form \<Rightarrow> string \<Rightarrow> string option \<Rightarrow> error + renderer" where
  "FormRenderer_init f csrf_field_arg id_prefix =
     (case data f of
        Inl e \<Rightarrow> Inl e
      | Inr a \<Rightarrow>
          Inr ((Renderer_init a (errors f) id_prefix)
                 \<lparr>r_form := Some f, r_csrf_field := Some csrf_field_arg\<rparr>))"

text \<open>
  The tag helpers are external; a call to one of them is recorded with its arguments.
\<close>

type_synonym attrs = "(string \<times> pyval) list"

datatype markup =
    tags_text string pyval "string option" attrs
  | tags_file string pyval "string option" attrs
  | tags_hidden string pyval "string option" attrs
  | tags_radio string pyval pyval "string option" attrs
  | tags_submit "string option" pyval "string option" attrs
  | tags_checkbox string pyval pyval "string option" "string option" attrs
  | tags_textarea string pyval "string option" attrs
  | tags_password string pyval "string option" attrs

definition Renderer_value :: "renderer \<Rightarrow> ctx \<Rightarrow> string \<Rightarrow> pyval \<Rightarrow> pyval" where
  "Renderer_value r c name dflt = dict_get (heap c ! r_data r) name dflt"

text \<open>
  \<open>_get_id\<close>; \<open>submit\<close> may pass \<open>name = None\<close>, and then \<open>self.id_prefix + id\<close> is a
  \<open>TypeError\<close>.
\<close>

definition get_id :: "renderer \<Rightarrow> string option \<Rightarrow> string option \<Rightarrow> error + string option" where
  "get_id r ident name =
     (case ident of
        Some i \<Rightarrow> Inr (Some i)
      | None \<Rightarrow>
          (case r_id_prefix r of
             None \<Rightarrow> Inr name
           | Some pre \<Rightarrow>
               if pre \<noteq> [] then
                 (case name of None \<Rightarrow> Inl TypeError | Some n \<Rightarrow> Inr (Some (pre @ n)))
               else Inr name))"

definition Renderer_text ::
  "renderer \<Rightarrow> ctx \<Rightarrow> string \<Rightarrow> pyval \<Rightarrow> string option \<Rightarrow> attrs \<Rightarrow> error + markup" where
  "Renderer_text r c name v ident attrs =
     (case get_id r ident (Some name) of
        Inl e \<Rightarrow> Inl e
      | Inr i \<Rightarrow> Inr (tags_text name (Renderer_value r c name v) i attrs))"

definition Renderer_file ::
  "renderer \<Rightarrow> ctx \<Rightarrow> string \<Rightarrow> pyval \<Rightarrow> string option \<Rightarrow> attrs \<Rightarrow> error + markup" where
  "Renderer_file r c name v ident attrs =
     (case get_id r ident (Some name) of
        Inl e \<Rightarrow> Inl e
      | Inr i \<Rightarrow> Inr (tags_file name (Renderer_value r c name v) i attrs))"

definition Renderer_hidden ::
  "renderer \<Rightarrow> ctx \<Rightarrow> string \<Rightarrow> pyval \<Rightarrow> string option \<Rightarrow> attrs \<Rightarrow> error + markup" where
  "Renderer_hidden r c name v ident attrs =
     (let v' = (if v = PNone then Renderer_value r c name PNone else v) in
      case get_id r ident (Some name) of
        Inl e \<Rightarrow> Inl e
      | Inr i \<Rightarrow> Inr (tags_hidden name v' i attrs))"

definition Renderer_radio ::
  "renderer \<Rightarrow> ctx \<Rightarrow> string \<Rightarrow> pyval \<Rightarrow> pyval \<Rightarrow> string option \<Rightarrow> attrs \<Rightarrow> markup" where
  "Renderer_radio r c name v checked label attrs =
     (let checked' = py_or (PBool (Renderer_value r c name PNone = v)) checked
      in tags_radio name v checked' label attrs)"

definition Renderer_submit ::
  "renderer \<Rightarrow> ctx \<Rightarrow> string option \<Rightarrow> pyval \<Rightarrow> string option \<Rightarrow> attrs \<Rightarrow> error + markup" where
  "Renderer_submit r c name v ident attrs =
     (let v' = (case name of None \<Rightarrow> v | Some n \<Rightarrow> Renderer_value r c n v) in
      case get_id r ident name of
        Inl e \<Rightarrow> Inl e
      | Inr i \<Rightarrow> Inr (tags_submit name v' i attrs))"

definition Renderer_checkbox ::
  "renderer \<Rightarrow> ctx \<Rightarrow> string \<Rightarrow> pyval \<Rightarrow> pyval \<Rightarrow> string option \<Rightarrow> string option \<Rightarrow> attrs
     \<Rightarrow> error + markup" where
  "Renderer_checkbox r c name v checked label ident attrs =
     (case get_id r ident (Some name) of
        Inl e \<Rightarrow> Inl e
      | Inr i \<Rightarrow> Inr (tags_checkbox name v (Renderer_value r c name checked) label i attrs))"

definition Renderer_textarea ::
  "renderer \<Rightarrow> ctx \<Rightarrow> string \<Rightarrow> pyval \<Rightarrow> string option \<Rightarrow> attrs \<Rightarrow> error + markup" where
  "Renderer_textarea r c name content ident attrs =
     (case get_id r ident (Some name) of
        Inl e \<Rightarrow> Inl e
      | Inr i \<Rightarrow> Inr (tags_textarea name (Renderer_value r c name content) i attrs))"

definition Renderer_password ::
  "renderer \<Rightarrow> ctx \<Rightarrow> string \<Rightarrow> pyval \<Rightarrow> string option \<Rightarrow> attrs \<Rightarrow> error + markup" where
  "Renderer_password r c name v ident attrs =
     (case get_id r ident (Some name) of
        Inl e \<Rightarrow> Inl e
      | Inr i \<Rightarrow> Inr (tags_password name (Renderer_value r c name v) i attrs))"

definition Renderer_is_error :: "renderer \<Rightarrow> string \<Rightarrow> bool" where
  "Renderer_is_error r name = dict_contains (r_errors r) name"

definition Renderer_errors_for :: "renderer \<Rightarrow> string \<Rightarrow> error + pyval" where
  "Renderer_errors_for r name =
     (case r_form r of
        None \<Rightarrow> Inl (AttributeError ''form'')
      | Some f \<Rightarrow> Inr (errors_for f name))"

section \<open>Reachable forms\<close>

text \<open>
  The invariant of a form that is only driven through its constructor and \<open>validate\<close>:
  the request's parameter mappings are allocated; a validated form passed the method
  check and has its data; a form that is not validated has no errors yet.
\<close>

definition form_inv :: "form \<Rightarrow> ctx \<Rightarrow> bool" where
  "form_inv f c =
     (POST (request f) < length (heap c) \<and> params (request f) < length (heap c) \<and>
      (is_validated f \<longrightarrow>
         method_allowed f \<and> (\<exists>a. data_attr f = Some a \<and> a < length (heap c))) \<and>
      (\<not> is_validated f \<longrightarrow> errors f = []))"

inductive reachable :: "form \<Rightarrow> ctx \<Rightarrow> bool" where
  init: "POST req < length (heap c) \<Longrightarrow> params req < length (heap c) \<Longrightarrow>
         reachable (Form_init req sch m) c"
| step: "reachable f c \<Longrightarrow> validate sk av f c = (res, f', c') \<Longrightarrow> reachable f' c'"

section \<open>Example data\<close>

text \<open>
  A signup request whose POST body carries the session's token, a schema that accepts
  everything, one that rejects with a structured error mapping and one that rejects
  without one.
\<close>

definition ex_params :: dict where
  "ex_params = [(''name'', PStr ''Alice''), (''_authentication_token'', PStr ''T''),
                (''_step'', PStr ''2'')]"

definition ex_data :: dict where
  "ex_data = [(''name'', PStr ''Alice''), (''_step'', PStr ''2'')]"

definition ex_request :: "string \<Rightarrow> request" where
  "ex_request m =
     \<lparr>request_method = m, POST = 0, params = 1, session_csrf_token = PStr ''T'',
      url = ''/signup'', path = ''/signup'', remote_addr = None, user_agent = None\<rparr>"

definition ex_ctx :: ctx where
  "ex_ctx = \<lparr>heap = [ex_params, [(''name'', PStr ''Alice'')]], trace = []\<rparr>"

definition ex_repeated_params :: dict where
  "ex_repeated_params =
     [(''_authentication_token'', PStr ''T''), (''_authentication_token'', PStr ''T''),
      (''name'', PStr ''Alice'')]"

definition ex_repeated_ctx :: ctx where
  "ex_repeated_ctx = \<lparr>heap = [ex_repeated_params, [(''name'', PStr ''Alice'')]], trace = []\<rparr>"

definition ex_schema_ok :: schema_engine where
  "ex_schema_ok =
     \<lparr>to_python = (\<lambda>p st. Inr p), unpack_errors = (\<lambda>e b dc lc. Inr [])\<rparr>"

definition ex_invalid :: invalid where
  "ex_invalid = Invalid ''invalid'' (Some [(''name'', Invalid ''Missing value'' None)])"

definition ex_errors :: dict where
  "ex_errors = [(''name'', PStr ''Missing value'')]"

definition ex_schema_invalid :: schema_engine where
  "ex_schema_invalid =
     \<lparr>to_python = (\<lambda>p st. Inl (InvalidExc ex_invalid)),
      unpack_errors = (\<lambda>e b dc lc. Inr ex_errors)\<rparr>"

definition ex_schema_unstructured :: schema_engine where
  "ex_schema_unstructured =
     \<lparr>to_python = (\<lambda>p st. Inl (InvalidExc (Invalid ''boom'' None))),
      unpack_errors = (\<lambda>e b dc lc. Inl (AssertionError (Form_invalid_with_errors [])))\<rparr>"

definition ex_form :: "schema_engine \<Rightarrow> string \<Rightarrow> form" where
  "ex_form sch m = Form_init (ex_request m) sch (Some ''POST'')"

definition ex_validated_form :: form where
  "ex_validated_form = (ex_form ex_schema_ok ''POST'')\<lparr>is_validated := True, data_attr := Some 3\<rparr>"

definition ex_validated_ctx :: ctx where
  "ex_validated_ctx =
     \<lparr>heap = [ex_params, [(''name'', PStr ''Alice'')], ex_data, ex_data],
      trace = [Session_get_csrf_token, Schema_to_python ex_data (ex_request ''POST'')]\<rparr>"

section \<open>Frame and invariant lemmas\<close>

lemma finish_validate_result:
  "finish_validate av f c = (res, f', c') \<Longrightarrow>
     f' = f\<lparr>is_validated := True\<rparr> \<and> c' = c \<and>
     res = (if av \<and> errors f \<noteq> [] then Inl (AssertionError (Form_invalid_with_errors (errors f)))
            else Inr (errors f = []))"
  by (auto simp: finish_validate_def Let_def split: if_splits)

lemma run_schema_frame:
  assumes "run_schema av p f c = (res, f', c')"
  shows "request f' = request f \<and> form_method f' = form_method f \<and> schema f' = schema f
    \<and> length (heap c) \<le> length (heap c')
    \<and> (\<forall>a<length (heap c). heap c' ! a = heap c ! a)
    \<and> (\<exists>tl. trace c' = trace c @ Schema_to_python (heap c ! p) (state f) # tl)"
  using assms
  by (auto simp: run_schema_def Let_def new_dict_def nth_append
      dest!: finish_validate_result split: sum.splits error.splits if_splits)

lemma run_schema_validated:
  assumes "run_schema av p f c = (res, f', c')" and "p < length (heap c)"
  shows "(is_validated f' \<longrightarrow> (\<exists>a. data_attr f' = Some a \<and> a < length (heap c'))) \<and>
         (\<not> is_validated f' \<longrightarrow> is_validated f \<or> errors f' = errors f)"
  using assms
  by (auto simp: run_schema_def Let_def new_dict_def
      dest!: finish_validate_result split: sum.splits error.splits if_splits)

lemma validate_csrf_frame:
  "validate_csrf f p c = (res, c') \<Longrightarrow> heap c' = heap c"
  by (auto simp: validate_csrf_def get_csrf_token_def Let_def split: if_splits)

lemma validate_frame:
  assumes "validate sk av f c = (res, f', c')"
  shows "request f' = request f \<and> form_method f' = form_method f
    \<and> length (heap c) \<le> length (heap c')
    \<and> (\<forall>a<length (heap c). heap c' ! a = heap c ! a)"
  using assms
  by (auto simp: validate_def Let_def dict_copy_def dict_pop_def nth_append
      dest!: run_schema_frame validate_csrf_frame
      split: if_splits prod.splits sum.splits option.splits)

lemma validate_preserves_inv:
  assumes inv: "form_inv f c" and v: "validate sk av f c = (res, f', c')"
  shows "form_inv f' c'"
proof (cases "is_validated f \<or> \<not> method_allowed f")
  case True
  with v have "f' = f \<and> c' = c"
    by (auto simp: validate_def split: if_splits)
  with inv show ?thesis by simp
next
  case False
  note fr = validate_frame [OF v]
  from fr have "request f' = request f" and "form_method f' = form_method f"
    by simp_all
  then have ma: "method_allowed f' = method_allowed f"
    by (simp add: method_allowed_def split: option.splits)
  from inv have pa: "get_params f < length (heap c)"
    by (simp add: form_inv_def get_params_def)
  from False inv have e0: "errors f = []"
    by (simp add: form_inv_def)
  have "(is_validated f' \<longrightarrow> (\<exists>a. data_attr f' = Some a \<and> a < length (heap c'))) \<and>
        (\<not> is_validated f' \<longrightarrow> errors f' = errors f)"
    using v False pa
    by (auto simp: validate_def Let_def dict_copy_def dict_pop_def
        dest!: run_schema_validated validate_csrf_frame
        split: if_splits prod.splits sum.splits option.splits)
  with inv fr ma False e0 show ?thesis
    by (auto simp: form_inv_def)
qed

lemma reachable_inv: "reachable f c \<Longrightarrow> form_inv f c"
proof (induction rule: reachable.induct)
  case (init req c sch m)
  then show ?case by (simp add: form_inv_def Form_init_def)
next
  case (step f c sk av res f' c')
  then show ?case by (blast intro: validate_preserves_inv)
qed

lemma map_of_bind_items:
  "distinct (map fst items) \<Longrightarrow>
     map_of (bind_items items obj) k =
       (case map_of items k of None \<Rightarrow> map_of obj k | Some v \<Rightarrow> Some v)"
proof (induction items arbitrary: obj)
  case Nil
  then show ?case by simp
next
  case (Cons kv items)
  obtain k1 v1 where kv: "kv = (k1, v1)" by (cases kv)
  from Cons.prems kv have d: "distinct (map fst items)" and n: "map_of items k1 = None"
    by (auto simp: map_of_eq_None_iff)
  show ?case
    using Cons.IH [OF d, of "setattr obj k1 v1"] n kv
    by (auto simp: setattr_def update_conv' split: option.splits)
qed

lemma map_of_filter_key:
  "map_of (filter (\<lambda>(k, v). Q k) d) k = (if Q k then map_of d k else None)"
  by (induction d) auto

lemma distinct_filter_key:
  "distinct (map fst d) \<Longrightarrow> distinct (map fst (filter P d))"
  by (induction d) auto

lemma validate_reaches_schema:
  assumes "\<not> is_validated f" and "method_allowed f"
    and "sk \<or> (get_params f < length (heap c) \<and>
               fst (validate_csrf f (Some (get_params f)) c) = Inr ())"
  shows "\<exists>p c1. validate sk av f c = run_schema av p f c1 \<and>
           heap c1 ! p = (if sk then heap c ! get_params f
                          else delete_first csrf_field (heap c ! get_params f)) \<and>
           (\<forall>a<length (heap c). heap c1 ! a = heap c ! a) \<and>
           length (heap c) \<le> length (heap c1) \<and>
           trace c1 = (if sk then trace c else trace c @ [Session_get_csrf_token])"
proof (cases sk)
  case True
  with assms have "validate sk av f c = run_schema av (get_params f) f c"
    by (simp add: validate_def)
  with True show ?thesis
    by (intro exI [of _ "get_params f"] exI [of _ c]) simp
next
  case False
  with assms(3) have p: "get_params f < length (heap c)"
    and ok: "fst (validate_csrf f (Some (get_params f)) c) = Inr ()" by simp_all
  from ok have m: "map_of (heap c ! get_params f) csrf_field \<noteq> None"
    and v: "validate_csrf f (Some (get_params f)) c =
              (Inr (), c\<lparr>trace := trace c @ [Session_get_csrf_token]\<rparr>)"
    by (auto simp: validate_csrf_def get_csrf_token_def dict_contains_def Let_def
        split: if_splits)
  from m obtain x where x: "map_of (heap c ! get_params f) csrf_field = Some x" by blast
  let ?c3 = "c\<lparr>trace := trace c @ [Session_get_csrf_token],
               heap := (heap c @ [heap c ! get_params f])
                         [length (heap c) := delete_first csrf_field (heap c ! get_params f)]\<rparr>"
  from False assms(1,2) v x p
  have "validate sk av f c = run_schema av (length (heap c)) f ?c3"
    by (simp add: validate_def dict_copy_def dict_pop_def Let_def nth_append)
  moreover have "heap ?c3 ! length (heap c) = delete_first csrf_field (heap c ! get_params f)"
    by simp
  moreover have "\<forall>a<length (heap c). heap ?c3 ! a = heap c ! a"
    by (simp add: nth_append)
  ultimately show ?thesis using False
    by (intro exI [of _ "length (heap c)"] exI [of _ ?c3]) simp
qed

lemma run_schema_invalid:
  assumes "to_python (schema f) (heap c ! p) (state f) = Inl (InvalidExc e)"
    and "run_schema av p f c = (res, f', c')"
  shows "(error_dict_truthy e \<and>
            unpack_errors (schema f) e True (dict_char f) (list_char f) = Inr errs \<longrightarrow>
            errors f' = errs \<and> is_validated f' \<and>
            res = (if av \<and> errs \<noteq> [] then Inl (AssertionError (Form_invalid_with_errors errs))
                   else Inr (errs = []))) \<and>
         (\<not> error_dict_truthy e \<longrightarrow>
            res = Inl (InvalidExc e) \<and> is_validated f' = is_validated f \<and>
            errors f' = errors f)"
  using assms
  by (auto simp: run_schema_def Let_def finish_validate_def split: if_splits)

lemma get_id_named: "\<exists>i. get_id r ident (Some name) = Inr i"
  by (simp add: get_id_def split: option.splits)

section \<open>The example run\<close>

lemmas ex_defs = ex_params_def ex_data_def ex_request_def ex_ctx_def ex_schema_ok_def
  ex_repeated_params_def ex_repeated_ctx_def
  ex_invalid_def ex_errors_def ex_schema_invalid_def ex_schema_unstructured_def ex_form_def
  ex_validated_form_def ex_validated_ctx_def Form_init_def

lemmas model_defs = validate_def validate_csrf_def get_csrf_token_def dict_copy_def
  dict_pop_def new_dict_def run_schema_def finish_validate_def method_allowed_def
  get_params_def dict_contains_def dict_get_def csrf_field_def error_dict_truthy_def

lemma ex_validate:
  "validate False False (ex_form ex_schema_ok ''POST'') ex_ctx =
     (Inr True, ex_validated_form, ex_validated_ctx)"
  by (simp add: ex_defs model_defs Let_def)

lemma ex_reachable: "reachable (ex_form sch m) ex_ctx"
  unfolding ex_form_def by (rule reachable.init) (simp_all add: ex_defs)

lemma ex_validated_reachable: "reachable ex_validated_form ex_validated_ctx"
  using reachable.step [OF ex_reachable ex_validate] .

section \<open>CSRF check\<close>

text \<open>
  C1. For every form and parameter mapping, \<open>validate_csrf\<close> raises the client error
  (400 Bad Request) if and only if the CSRF field \<open>_authentication_token\<close> is absent
  from the parameters, or is present with a value different from the token returned by the
  session's \<open>get_csrf_token()\<close>; otherwise it returns normally. With \<open>params=None\<close> the
  mapping checked is the one \<open>_get_params\<close> returns.
\<close>

theorem validate_csrf_client_error:
  "((\<exists>d. fst (validate_csrf f pa c) = Inl (HTTPBadRequest d)) \<longleftrightarrow>
      (\<not> dict_contains (heap c ! (case pa of None \<Rightarrow> get_params f | Some a \<Rightarrow> a)) csrf_field \<or>
       dict_contains (heap c ! (case pa of None \<Rightarrow> get_params f | Some a \<Rightarrow> a)) csrf_field \<and>
       dict_get (heap c ! (case pa of None \<Rightarrow> get_params f | Some a \<Rightarrow> a)) csrf_field PNone
         \<noteq> session_csrf_token (request f))) \<and>
   (fst (validate_csrf f pa c) = Inr () \<longleftrightarrow>
      dict_contains (heap c ! (case pa of None \<Rightarrow> get_params f | Some a \<Rightarrow> a)) csrf_field \<and>
      dict_get (heap c ! (case pa of None \<Rightarrow> get_params f | Some a \<Rightarrow> a)) csrf_field PNone
        = session_csrf_token (request f))"
  by (auto simp: validate_csrf_def get_csrf_token_def Let_def split: option.splits)

text \<open>
  The second mapping of the example store has no token, the POST body has the right one.
\<close>

theorem validate_csrf_client_error_witness:
  "(\<exists>d. fst (validate_csrf (ex_form ex_schema_ok ''POST'') (Some 1) ex_ctx)
          = Inl (HTTPBadRequest d)) \<and>
   fst (validate_csrf (ex_form ex_schema_ok ''POST'') None ex_ctx) = Inr ()"
  using validate_csrf_client_error [of "ex_form ex_schema_ok ''POST''" "Some 1" ex_ctx]
    validate_csrf_client_error [of "ex_form ex_schema_ok ''POST''" None ex_ctx]
  by (simp add: ex_defs csrf_field_def dict_contains_def dict_get_def get_params_def)

section \<open>Validation\<close>

text \<open>
  C2. \<open>validate()\<close> is idempotent: on a form whose \<open>is_validated\<close> flag is true, a call
  returns \<open>not errors\<close> and leaves the form, the store and the trace of collaborator
  calls unchanged (whatever the request method and the arguments are, so no method
  check, CSRF check or schema run takes place); and when a first call returned a boolean
  and left the form validated, a second call returns the same boolean and changes nothing.
\<close>

theorem validate_idempotent:
  "(is_validated f \<longrightarrow> validate sk av f c = (Inr (errors f = []), f, c)) \<and>
   (validate sk av f c = (Inr b, f', c') \<and> is_validated f' \<longrightarrow>
      validate sk' av' f' c' = (Inr b, f', c'))"
proof (intro conjI impI)
  assume "is_validated f"
  then show "validate sk av f c = (Inr (errors f = []), f, c)"
    by (simp add: validate_def)
next
  assume a: "validate sk av f c = (Inr b, f', c') \<and> is_validated f'"
  show "validate sk' av' f' c' = (Inr b, f', c')"
  proof (cases "is_validated f")
    case True
    with a show ?thesis by (auto simp: validate_def)
  next
    case False
    have rs: "b = (errors g' = [])" if "run_schema av p g d = (Inr b, g', d')" for p g d g' d'
      using run_schema_frame [OF that] that
      by (auto simp: run_schema_def Let_def new_dict_def
          dest!: finish_validate_result split: sum.splits error.splits if_splits)
    from a False have "b = (errors f' = [])"
      by (auto simp: validate_def Let_def dict_copy_def dest!: rs
          split: if_splits prod.splits sum.splits)
    with a show ?thesis by (simp add: validate_def)
  qed
qed

text \<open>
  A validated form with errors, a GET request and \<open>assert_valid=True\<close>: the second call
  returns false and asserts nothing. The example run returned true, and so does a
  second call.
\<close>

theorem validate_idempotent_witness:
  "validate False True
     ((ex_form ex_schema_invalid ''GET'')\<lparr>is_validated := True, errors := ex_errors\<rparr>) ex_ctx
   = (Inr False,
      (ex_form ex_schema_invalid ''GET'')\<lparr>is_validated := True, errors := ex_errors\<rparr>, ex_ctx) \<and>
   validate True True ex_validated_form ex_validated_ctx
   = (Inr True, ex_validated_form, ex_validated_ctx)"
  using validate_idempotent
      [of "(ex_form ex_schema_invalid ''GET'')\<lparr>is_validated := True, errors := ex_errors\<rparr>"
        False True ex_ctx]
    validate_idempotent
      [of "ex_form ex_schema_ok ''POST''" False False ex_ctx True ex_validated_form
        ex_validated_ctx True True]
    ex_validate
  by (simp add: ex_errors_def ex_validated_form_def)

text \<open>
  C3 as stated fails: with \<open>assert_valid=True\<close> a structured failure is captured and
  then the final assertion raises, so \<open>validate\<close> does not return false.
\<close>

theorem validate_schema_failure_counterexample:
  "to_python (schema (ex_form ex_schema_invalid ''POST''))
     (delete_first csrf_field (heap ex_ctx ! get_params (ex_form ex_schema_invalid ''POST'')))
     (state (ex_form ex_schema_invalid ''POST'')) = Inl (InvalidExc ex_invalid) \<and>
   error_dict_truthy ex_invalid \<and>
   fst (validate False True (ex_form ex_schema_invalid ''POST'') ex_ctx)
     = Inl (AssertionError (Form_invalid_with_errors ex_errors)) \<and>
   fst (validate False True (ex_form ex_schema_invalid ''POST'') ex_ctx) \<noteq> Inr False"
  by (simp add: ex_defs model_defs Let_def)

text \<open>
  C3, amended. When the schema engine raises a validation failure during \<open>validate()\<close>
  (the form is not yet validated, the method is allowed, and the CSRF check is skipped
  or passes): if the failure carries a structured (truthy) error mapping and unpacking
  returns a mapping, \<open>validate()\<close> stores the unpacked mapping in \<open>errors\<close> and marks the
  form validated; with \<open>assert_valid\<close> false it returns \<open>not errors\<close> without raising
  (false whenever the unpacked mapping is non-empty), and with \<open>assert_valid\<close> true and
  a non-empty mapping it raises the assertion error. If the failure has no structured
  error mapping, \<open>validate()\<close> re-raises that same exception, and the form stays
  unvalidated with its errors unchanged.
\<close>

theorem validate_schema_failure:
  assumes "\<not> is_validated f" and "method_allowed f"
    and "sk \<or> (get_params f < length (heap c) \<and>
               fst (validate_csrf f (Some (get_params f)) c) = Inr ())"
    and "to_python (schema f)
           (if sk then heap c ! get_params f
            else delete_first csrf_field (heap c ! get_params f)) (state f)
         = Inl (InvalidExc e)"
    and "validate sk av f c = (res, f', c')"
  shows "(error_dict_truthy e \<and>
            unpack_errors (schema f) e True (dict_char f) (list_char f) = Inr errs \<longrightarrow>
            errors f' = errs \<and> is_validated f' \<and>
            res = (if av \<and> errs \<noteq> [] then Inl (AssertionError (Form_invalid_with_errors errs))
                   else Inr (errs = []))) \<and>
         (\<not> error_dict_truthy e \<longrightarrow>
            res = Inl (InvalidExc e) \<and> \<not> is_validated f' \<and> errors f' = errors f)"
proof -
  from validate_reaches_schema [OF assms(1-3), of av]
  obtain p c1 where r: "validate sk av f c = run_schema av p f c1"
    and h: "heap c1 ! p = (if sk then heap c ! get_params f
                           else delete_first csrf_field (heap c ! get_params f))"
    by blast
  from assms(4) h have t: "to_python (schema f) (heap c1 ! p) (state f) = Inl (InvalidExc e)"
    by simp
  from r assms(5) have "run_schema av p f c1 = (res, f', c')" by simp
  from run_schema_invalid [OF t this, of errs] assms(1) show ?thesis by simp
qed

text \<open>
  The rejecting schema gives false and the example errors; the schema that rejects
  without an error mapping gets its exception back.
\<close>

theorem validate_schema_failure_witness:
  "fst (validate False False (ex_form ex_schema_invalid ''POST'') ex_ctx) = Inr False \<and>
   errors (fst (snd (validate False False (ex_form ex_schema_invalid ''POST'') ex_ctx)))
     = ex_errors \<and>
   is_validated (fst (snd (validate False False (ex_form ex_schema_invalid ''POST'') ex_ctx))) \<and>
   fst (validate True False (ex_form ex_schema_unstructured ''POST'') ex_ctx)
     = Inl (InvalidExc (Invalid ''boom'' None))"
proof -
  let ?f = "ex_form ex_schema_invalid ''POST''"
  let ?g = "ex_form ex_schema_unstructured ''POST''"
  let ?V = "validate False False ?f ex_ctx"
  let ?W = "validate True False ?g ex_ctx"
  have f1: "\<not> is_validated ?f" and f2: "method_allowed ?f"
    and f3: "False \<or> (get_params ?f < length (heap ex_ctx) \<and>
               fst (validate_csrf ?f (Some (get_params ?f)) ex_ctx) = Inr ())"
    and f4: "to_python (schema ?f)
               (if False then heap ex_ctx ! get_params ?f
                else delete_first csrf_field (heap ex_ctx ! get_params ?f)) (state ?f)
             = Inl (InvalidExc ex_invalid)"
    and f5: "?V = (fst ?V, fst (snd ?V), snd (snd ?V))"
    by (simp_all add: ex_defs model_defs Let_def)
  have g1: "\<not> is_validated ?g" and g2: "method_allowed ?g"
    and g3: "True \<or> (get_params ?g < length (heap ex_ctx) \<and>
               fst (validate_csrf ?g (Some (get_params ?g)) ex_ctx) = Inr ())"
    and g4: "to_python (schema ?g)
               (if True then heap ex_ctx ! get_params ?g
                else delete_first csrf_field (heap ex_ctx ! get_params ?g)) (state ?g)
             = Inl (InvalidExc (Invalid ''boom'' None))"
    and g5: "?W = (fst ?W, fst (snd ?W), snd (snd ?W))"
    by (simp_all add: ex_defs model_defs Let_def)
  have t: "error_dict_truthy ex_invalid"
    and u: "unpack_errors (schema ?f) ex_invalid True (dict_char ?f) (list_char ?f) = Inr ex_errors"
    and n: "\<not> error_dict_truthy (Invalid ''boom'' None)" and e: "ex_errors \<noteq> []"
    by (simp_all add: ex_defs error_dict_truthy_def)
  from validate_schema_failure [OF f1 f2 f3 f4 f5, of ex_errors] t u e
    validate_schema_failure [OF g1 g2 g3 g4 g5, of "[]"] n
  show ?thesis by simp
qed

text \<open>
  C4. For every form (driven through its constructor and \<open>validate\<close>) whose configured
  method does not match the request's method: \<open>validate(assert_valid=False)\<close> returns
  false at once, with the form, the store and the trace unchanged (no CSRF check, no
  schema call), and \<open>validate(assert_valid=True)\<close> raises the assertion error.
\<close>

theorem validate_method_mismatch:
  assumes "reachable f c" and "\<not> method_allowed f"
  shows "validate sk False f c = (Inr False, f, c) \<and>
         validate sk True f c =
           (Inl (AssertionError
                  (Expected_request_method (form_method f) (request_method (request f)))), f, c)"
proof -
  from reachable_inv [OF assms(1)] assms(2) have "\<not> is_validated f"
    by (auto simp: form_inv_def)
  with assms(2) show ?thesis by (simp add: validate_def)
qed

text \<open>A GET request on the POST form of the example, whose POST body is well-formed.\<close>

theorem validate_method_mismatch_witness:
  "reachable (ex_form ex_schema_ok ''GET'') ex_ctx \<and>
   \<not> method_allowed (ex_form ex_schema_ok ''GET'') \<and>
   validate False False (ex_form ex_schema_ok ''GET'') ex_ctx
     = (Inr False, ex_form ex_schema_ok ''GET'', ex_ctx) \<and>
   validate False True (ex_form ex_schema_ok ''GET'') ex_ctx
     = (Inl (AssertionError (Expected_request_method (Some ''POST'') ''GET'')),
        ex_form ex_schema_ok ''GET'', ex_ctx)"
proof -
  have m: "\<not> method_allowed (ex_form ex_schema_ok ''GET'')"
    by (simp add: ex_defs method_allowed_def)
  from validate_method_mismatch [OF ex_reachable m, of False] m ex_reachable
  show ?thesis by (simp add: ex_form_def ex_request_def Form_init_def)
qed

text \<open>
  What \<open>validate\<close> with \<open>skip_csrf\<close> false does to the parameters: the request is the
  same afterwards, every mapping that was in the store before the call (the request's
  parameter mappings among them) has the same content afterwards, and when the CSRF check
  passes the schema engine receives a copy of the parameters from which the first entry
  for the CSRF field has been removed. Where the field occurs once, that copy has no
  CSRF field.
\<close>

lemma delete_first_keys:
  "distinct (map fst d) \<Longrightarrow> k \<notin> fst ` set (delete_first k d)"
proof (induction d)
  case Nil
  then show ?case by simp
next
  case (Cons kv d)
  obtain k' v where kv: "kv = (k', v)" by (cases kv)
  show ?case
  proof (cases "k' = k")
    case True
    with Cons.prems kv show ?thesis by simp
  next
    case False
    with Cons kv show ?thesis by simp
  qed
qed

lemma delete_first_distinct:
  "distinct (map fst d) \<Longrightarrow> \<not> dict_contains (delete_first k d) k"
  using delete_first_keys [of d k] by (simp add: dict_contains_def map_of_eq_None_iff)

lemma validate_schema_argument:
  assumes "validate False av f c = (res, f', c')"
  shows "request f' = request f \<and>
         (\<forall>a<length (heap c). heap c' ! a = heap c ! a) \<and>
         (\<not> is_validated f \<and> method_allowed f \<and> get_params f < length (heap c) \<and>
          fst (validate_csrf f (Some (get_params f)) c) = Inr () \<longrightarrow>
            (\<exists>tl. trace c' = trace c @ Session_get_csrf_token #
                     Schema_to_python (delete_first csrf_field (heap c ! get_params f))
                       (state f) # tl))"
proof (intro conjI impI)
  from validate_frame [OF assms]
  show "request f' = request f" and "\<forall>a<length (heap c). heap c' ! a = heap c ! a"
    by simp_all
next
  assume a: "\<not> is_validated f \<and> method_allowed f \<and> get_params f < length (heap c) \<and>
          fst (validate_csrf f (Some (get_params f)) c) = Inr ()"
  from a validate_reaches_schema [of f False c av]
  obtain p c1 where r: "validate False av f c = run_schema av p f c1"
    and h: "heap c1 ! p = delete_first csrf_field (heap c ! get_params f)"
    and t: "trace c1 = trace c @ [Session_get_csrf_token]"
    by auto
  from r assms have "run_schema av p f c1 = (res, f', c')" by simp
  from run_schema_frame [OF this] h t
  show "\<exists>tl. trace c' = trace c @ Session_get_csrf_token #
                     Schema_to_python (delete_first csrf_field (heap c ! get_params f))
                       (state f) # tl"
    by auto
qed

text \<open>
  C6. A POST body that repeats the CSRF field, both times with the session's token: the
  CSRF check passes and the request's own mapping is unchanged after \<open>validate()\<close>, but
  the copy passed to the schema engine still contains the CSRF field, because \<open>pop\<close>
  took one of the two entries only.
\<close>

theorem validate_repeated_csrf_field:
  "heap ex_repeated_ctx ! get_params (ex_form ex_schema_ok ''POST'') = ex_repeated_params \<and>
   fst (validate_csrf (ex_form ex_schema_ok ''POST'') None ex_repeated_ctx) = Inr () \<and>
   fst (validate False False (ex_form ex_schema_ok ''POST'') ex_repeated_ctx) = Inr True \<and>
   trace (snd (snd (validate False False (ex_form ex_schema_ok ''POST'') ex_repeated_ctx)))
     = [Session_get_csrf_token,
        Schema_to_python [(''_authentication_token'', PStr ''T''), (''name'', PStr ''Alice'')]
          (ex_request ''POST'')] \<and>
   dict_contains [(''_authentication_token'', PStr ''T''), (''name'', PStr ''Alice'')]
     csrf_field \<and>
   heap (snd (snd (validate False False (ex_form ex_schema_ok ''POST'') ex_repeated_ctx)))
     ! POST (request (ex_form ex_schema_ok ''POST'')) = ex_repeated_params"
  by (simp add: ex_defs model_defs Let_def)

section \<open>Binding\<close>

text \<open>
  C5. On every form driven through its constructor and \<open>validate\<close>, \<open>bind(obj)\<close> raises
  \<open>FormNotValidated\<close> when \<open>is_validated\<close> is false, raises \<open>FormInvalid\<close> when \<open>errors\<close>
  is non-empty, and otherwise returns \<open>obj\<close> with an attribute set for every key of
  \<open>data\<close> that does not start with an underscore; underscore-prefixed keys are skipped
  and the other attributes of \<open>obj\<close> are kept (the data mapping being a dict, its keys
  are distinct).
\<close>

theorem bind_result:
  assumes "reachable f c"
  shows "(\<not> is_validated f \<longrightarrow>
            bind f c obj = Inl (FormNotValidated FormNotValidated_message)) \<and>
         (errors f \<noteq> [] \<longrightarrow> bind f c obj = Inl (FormInvalid ''Form not valid; cannot bind'')) \<and>
         (is_validated f \<and> errors f = [] \<longrightarrow>
            (\<exists>a obj'. data_attr f = Some a \<and> a < length (heap c) \<and> bind f c obj = Inr obj' \<and>
               (distinct (map fst (heap c ! a)) \<longrightarrow>
                  (\<forall>k. map_of obj' k =
                         (if dict_contains (heap c ! a) k \<and> \<not> startswith k ''_''
                          then map_of (heap c ! a) k else map_of obj k)))))"
proof (intro conjI impI)
  assume "\<not> is_validated f"
  then show "bind f c obj = Inl (FormNotValidated FormNotValidated_message)"
    by (simp add: bind_def)
next
  assume e: "errors f \<noteq> []"
  with reachable_inv [OF assms] have "is_validated f"
    by (auto simp: form_inv_def)
  with e show "bind f c obj = Inl (FormInvalid ''Form not valid; cannot bind'')"
    by (simp add: bind_def)
next
  assume ok: "is_validated f \<and> errors f = []"
  with reachable_inv [OF assms] obtain a where a: "data_attr f = Some a" "a < length (heap c)"
    by (auto simp: form_inv_def)
  let ?items = "filter (\<lambda>(k, v). \<not> startswith k ''_'') (heap c ! a)"
  from ok a have b: "bind f c obj = Inr (bind_items ?items obj)"
    by (simp add: bind_def data_def)
  have "\<forall>k. map_of (bind_items ?items obj) k =
               (if dict_contains (heap c ! a) k \<and> \<not> startswith k ''_''
                then map_of (heap c ! a) k else map_of obj k)"
    if d: "distinct (map fst (heap c ! a))"
    using map_of_bind_items [OF distinct_filter_key [OF d], of "\<lambda>(k, v). \<not> startswith k ''_''" obj]
    by (auto simp: map_of_filter_key dict_contains_def split: option.splits)
  with a b show "\<exists>a obj'. data_attr f = Some a \<and> a < length (heap c) \<and> bind f c obj = Inr obj' \<and>
      (distinct (map fst (heap c ! a)) \<longrightarrow>
         (\<forall>k. map_of obj' k =
                (if dict_contains (heap c ! a) k \<and> \<not> startswith k ''_''
                 then map_of (heap c ! a) k else map_of obj k)))"
    by blast
qed

text \<open>
  Before validation, after the rejected submission and after the example run, where
  \<open>name\<close> is copied and \<open>_step\<close> is not.
\<close>

theorem bind_result_witness:
  "bind (ex_form ex_schema_ok ''POST'') ex_ctx [(''id'', PStr ''7'')]
     = Inl (FormNotValidated FormNotValidated_message) \<and>
   bind (fst (snd (validate True False (ex_form ex_schema_invalid ''POST'') ex_ctx)))
        (snd (snd (validate True False (ex_form ex_schema_invalid ''POST'') ex_ctx)))
        [(''id'', PStr ''7'')]
     = Inl (FormInvalid ''Form not valid; cannot bind'') \<and>
   (\<exists>obj'. bind ex_validated_form ex_validated_ctx [(''id'', PStr ''7'')] = Inr obj' \<and>
      map_of obj' ''name'' = Some (PStr ''Alice'') \<and> map_of obj' ''_step'' = None \<and>
      map_of obj' ''id'' = Some (PStr ''7''))"
proof -
  let ?V = "validate True False (ex_form ex_schema_invalid ''POST'') ex_ctx"
  have "?V = (fst ?V, fst (snd ?V), snd (snd ?V))" by simp
  from reachable.step [OF ex_reachable this]
  have r: "reachable (fst (snd ?V)) (snd (snd ?V))" .
  have e: "errors (fst (snd ?V)) \<noteq> []"
    by (simp add: ex_defs model_defs Let_def)
  have n: "\<not> is_validated (ex_form ex_schema_ok ''POST'')"
    by (simp add: ex_defs)
  have v: "is_validated ex_validated_form \<and> errors ex_validated_form = []"
    and a: "data_attr ex_validated_form = Some 3"
    and h: "heap ex_validated_ctx ! 3 = ex_data" and d: "distinct (map fst ex_data)"
    by (simp_all add: ex_defs)
  from bind_result [OF ex_validated_reachable, of "[(''id'', PStr ''7'')]"] v a h d
  obtain obj' where b: "bind ex_validated_form ex_validated_ctx [(''id'', PStr ''7'')] = Inr obj'"
    and k: "\<forall>k. map_of obj' k =
                 (if dict_contains ex_data k \<and> \<not> startswith k ''_''
                  then map_of ex_data k else map_of [(''id'', PStr ''7'')] k)"
    by auto
  from k [rule_format, of "''name''"] k [rule_format, of "''_step''"] k [rule_format, of "''id''"]
  have "map_of obj' ''name'' = Some (PStr ''Alice'') \<and> map_of obj' ''_step'' = None \<and>
        map_of obj' ''id'' = Some (PStr ''7'')"
    by (simp add: ex_data_def dict_contains_def startswith_def)
  with b bind_result [OF ex_reachable, of ex_schema_ok "''POST''" "[(''id'', PStr ''7'')]"] n
    bind_result [OF r, of "[(''id'', PStr ''7'')]"] e
  show ?thesis by simp
qed

section \<open>Rendering\<close>

text \<open>
  C7. On a renderer built by \<open>Renderer.__init__\<close> from a snapshot whose errors hold a
  message for \<open>name\<close>, \<open>is_error\<close> reads the snapshot and answers true, but \<open>errors_for\<close>
  reads the attribute \<open>form\<close>, which such a renderer does not have, and raises
  \<open>AttributeError\<close>; on the form \<open>errors_for\<close> returns the list of messages.
\<close>

theorem Renderer_errors_for_without_form:
  "Renderer_errors_for (Renderer_init 0 [(''name'', PList [PStr ''Required''])] None) ''name''
     = Inl (AttributeError ''form'') \<and>
   Renderer_is_error (Renderer_init 0 [(''name'', PList [PStr ''Required''])] None) ''name'' \<and>
   errors_for ((ex_form ex_schema_ok ''POST'')\<lparr>errors := [(''name'', PList [PStr ''Required''])]\<rparr>)
     ''name'' = PList [PStr ''Required'']"
  by (simp add: Renderer_errors_for_def Renderer_is_error_def Renderer_init_def errors_for_def
      dict_contains_def dict_get_def)

text \<open>
  C8 as stated fails: \<open>text\<close> renders the stored value \<open>Alice\<close>, not the value \<open>Bob\<close>
  that was passed.
\<close>

theorem Renderer_text_override_counterexample:
  "Renderer_text (Renderer_init 3 [] None) ex_validated_ctx ''name'' (PStr ''Bob'') None []
     = Inr (tags_text ''name'' (PStr ''Alice'') (Some ''name'') []) \<and>
   Renderer_text (Renderer_init 3 [] None) ex_validated_ctx ''name'' (PStr ''Bob'') None []
     \<noteq> Inr (tags_text ''name'' (PStr ''Bob'') (Some ''name'') [])"
  by (simp add: Renderer_text_def Renderer_init_def Renderer_value_def get_id_def dict_get_def
      ex_defs)

text \<open>
  C8, amended. For \<open>text\<close>, \<open>file\<close>, \<open>submit\<close>, \<open>textarea\<close> and \<open>password\<close> the value
  rendered is the value stored in the data snapshot under the field's name when the name
  is present there, and the passed value otherwise (the passed value is a default); a
  \<open>submit\<close> without a name renders the passed value, unless computing its id raises. For
  \<open>hidden\<close> the value rendered is the passed value when it is not \<open>None\<close>, and otherwise
  the stored value (\<open>None\<close> when the name is absent).
\<close>

theorem Renderer_effective_value:
  "(\<exists>i. Renderer_text r c name v ident attrs =
          Inr (tags_text name
                 (case map_of (heap c ! r_data r) name of Some s \<Rightarrow> s | None \<Rightarrow> v) i attrs)) \<and>
   (\<exists>i. Renderer_file r c name v ident attrs =
          Inr (tags_file name
                 (case map_of (heap c ! r_data r) name of Some s \<Rightarrow> s | None \<Rightarrow> v) i attrs)) \<and>
   (\<exists>i. Renderer_textarea r c name v ident attrs =
          Inr (tags_textarea name
                 (case map_of (heap c ! r_data r) name of Some s \<Rightarrow> s | None \<Rightarrow> v) i attrs)) \<and>
   (\<exists>i. Renderer_password r c name v ident attrs =
          Inr (tags_password name
                 (case map_of (heap c ! r_data r) name of Some s \<Rightarrow> s | None \<Rightarrow> v) i attrs)) \<and>
   (\<exists>i. Renderer_submit r c (Some name) v ident attrs =
          Inr (tags_submit (Some name)
                 (case map_of (heap c ! r_data r) name of Some s \<Rightarrow> s | None \<Rightarrow> v) i attrs)) \<and>
   (Renderer_submit r c None v ident attrs = Inl TypeError \<or>
    (\<exists>i. Renderer_submit r c None v ident attrs = Inr (tags_submit None v i attrs))) \<and>
   (\<exists>i. Renderer_hidden r c name v ident attrs =
          Inr (tags_hidden name
                 (if v \<noteq> PNone then v
                  else (case map_of (heap c ! r_data r) name of Some s \<Rightarrow> s | None \<Rightarrow> PNone))
                 i attrs))"
  using get_id_named [of r ident name]
  by (auto simp: Renderer_text_def Renderer_file_def Renderer_textarea_def
      Renderer_password_def Renderer_submit_def Renderer_hidden_def Renderer_value_def
      dict_get_def get_id_def split: option.splits)

text \<open>On the data of the example run: \<open>hidden\<close> renders \<open>Bob\<close>, \<open>password\<close> renders \<open>Alice\<close>.\<close>

theorem Renderer_effective_value_witness:
  "(\<exists>i. Renderer_hidden (Renderer_init 3 [] None) ex_validated_ctx ''name'' (PStr ''Bob'') None []
          = Inr (tags_hidden ''name'' (PStr ''Bob'') i [])) \<and>
   (\<exists>i. Renderer_password (Renderer_init 3 [] None) ex_validated_ctx ''name'' (PStr ''Bob'') None []
          = Inr (tags_password ''name'' (PStr ''Alice'') i []))"
  using Renderer_effective_value
      [of "Renderer_init 3 [] None" ex_validated_ctx "''name''" "PStr ''Bob''" None "[]"]
  by (simp add: Renderer_init_def ex_defs)

text \<open>
  C9 as stated fails for \<open>checkbox\<close>: the stored value \<open>2\<close> differs from the control's
  value \<open>1\<close> and the flag is false, yet the checked state passed on is the stored value,
  which is truthy.
\<close>

theorem Renderer_checkbox_equality_counterexample:
  "Renderer_value (Renderer_init 3 [] None) ex_validated_ctx ''_step'' PNone \<noteq> PStr ''1'' \<and>
   Renderer_checkbox (Renderer_init 3 [] None) ex_validated_ctx ''_step'' (PStr ''1'')
       (PBool False) None None []
     = Inr (tags_checkbox ''_step'' (PStr ''1'') (PStr ''2'') None (Some ''_step'') []) \<and>
   truthy (PStr ''2'') \<and>
   Renderer_checkbox (Renderer_init 3 [] None) ex_validated_ctx ''_step'' (PStr ''1'')
       (PBool False) None None []
     \<noteq> Inr (tags_checkbox ''_step'' (PStr ''1'') (PBool False) None (Some ''_step'') [])"
  by (simp add: Renderer_checkbox_def Renderer_init_def Renderer_value_def get_id_def
      dict_get_def ex_defs)

text \<open>
  C9, amended. \<open>radio\<close> resolves its checked state as true when the stored snapshot
  value of the field (\<open>None\<close> when absent) equals the control's value, and as the explicit
  \<open>checked\<close> flag otherwise. \<open>checkbox\<close> does not compare with the control's value: its
  checked state is the stored snapshot value of the field when the field is present,
  and the explicit \<open>checked\<close> flag otherwise.
\<close>

theorem Renderer_checked_state:
  "Renderer_radio r c name v checked label attrs =
     tags_radio name v
       (if (case map_of (heap c ! r_data r) name of Some s \<Rightarrow> s | None \<Rightarrow> PNone) = v
        then PBool True else checked) label attrs \<and>
   (\<exists>i. Renderer_checkbox r c name v checked label ident attrs =
          Inr (tags_checkbox name v
                 (case map_of (heap c ! r_data r) name of Some s \<Rightarrow> s | None \<Rightarrow> checked)
                 label i attrs))"
  using get_id_named [of r ident name]
  by (auto simp: Renderer_radio_def Renderer_checkbox_def Renderer_value_def dict_get_def
      py_or_def split: option.splits)

text \<open>On the data of the example run.\<close>

theorem Renderer_checked_state_witness:
  "Renderer_radio (Renderer_init 3 [] None) ex_validated_ctx ''name'' (PStr ''Alice'')
       (PBool False) None []
     = tags_radio ''name'' (PStr ''Alice'') (PBool True) None [] \<and>
   Renderer_radio (Renderer_init 3 [] None) ex_validated_ctx ''name'' (PStr ''Bob'')
       (PBool False) None []
     = tags_radio ''name'' (PStr ''Bob'') (PBool False) None [] \<and>
   (\<exists>i. Renderer_checkbox (Renderer_init 3 [] None) ex_validated_ctx ''agree'' (PStr ''1'')
           (PBool True) None None []
          = Inr (tags_checkbox ''agree'' (PStr ''1'') (PBool True) None i []))"
  using Renderer_checked_state
      [of "Renderer_init 3 [] None" ex_validated_ctx "''name''" "PStr ''Alice''" "PBool False"
        None "[]"]
    Renderer_checked_state
      [of "Renderer_init 3 [] None" ex_validated_ctx "''name''" "PStr ''Bob''" "PBool False"
        None "[]"]
    Renderer_checked_state
      [of "Renderer_init 3 [] None" ex_validated_ctx "''agree''" "PStr ''1''" "PBool True"
        None "[]" None]
  by (simp add: Renderer_init_def ex_defs)

text \<open>
  C10. On every form whose \<open>is_validated\<close> flag is false, constructing a \<open>FormRenderer\<close>
  raises \<open>FormNotValidated\<close> (the constructor reads the property \<open>data\<close>); so a
  \<open>FormRenderer\<close> exists only for a validated form.
\<close>

theorem FormRenderer_requires_validated:
  "(\<not> is_validated f \<longrightarrow>
      FormRenderer_init f cf pre = Inl (FormNotValidated FormNotValidated_message)) \<and>
   (FormRenderer_init f cf pre = Inr r \<longrightarrow> is_validated f)"
  by (auto simp: FormRenderer_init_def data_def split: sum.splits if_splits)

text \<open>The fresh form of the example, and the form after the example run.\<close>

theorem FormRenderer_requires_validated_witness:
  "FormRenderer_init (ex_form ex_schema_ok ''POST'') csrf_field None
     = Inl (FormNotValidated FormNotValidated_message) \<and>
   FormRenderer_init ex_validated_form csrf_field None
     = Inr ((Renderer_init 3 [] None)
              \<lparr>r_form := Some ex_validated_form, r_csrf_field := Some csrf_field\<rparr>) \<and>
   is_validated ex_validated_form"
  using FormRenderer_requires_validated
      [of "ex_form ex_schema_ok ''POST''" csrf_field None]
    FormRenderer_requires_validated
      [of ex_validated_form csrf_field None
        "(Renderer_init 3 [] None)
           \<lparr>r_form := Some ex_validated_form, r_csrf_field := Some csrf_field\<rparr>"]
  by (simp add: ex_form_def ex_validated_form_def Form_init_def FormRenderer_init_def data_def)

end
